theory Spec2Isabelle
  imports Main
begin

section \<open>Python primitives used by main.py\<close>

text \<open>
  Python integers are unbounded, so they are \<^typ>\<open>int\<close>. Strings are \<^typ>\<open>string\<close>;
  the texts that matter to the timer (digits, signs, colons, slashes, the letters of the
  key bindings) are ASCII, and the model of \<open>str.lower\<close>, of \<open>int(text)\<close> and of
  whitespace is the ASCII part of Python's.
\<close>

subsection \<open>Decimal text of an integer: \<open>str(n)\<close> and the format spec \<open>02d\<close>\<close>

definition digit_char :: "nat \<Rightarrow> char" where
  "digit_char d = ''0123456789'' ! d"

fun digits :: "nat \<Rightarrow> string" where
  "digits n = (if n < 10 then [digit_char n] else digits (n div 10) @ [digit_char (n mod 10)])"

declare digits.simps [simp del]

definition str_int :: "int \<Rightarrow> string" where
  \<comment> \<open>\<open>str(n)\<close>, also what \<open>f"{n}"\<close> gives.\<close>
  "str_int n = (if n < 0 then CHR ''-'' # digits (nat (- n)) else digits (nat n))"

definition zfill :: "nat \<Rightarrow> string \<Rightarrow> string" where
  "zfill w s = replicate (w - length s) CHR ''0'' @ s"

definition fmt_02d :: "int \<Rightarrow> string" where
  \<comment> \<open>\<open>f"{n:02d}"\<close>: the minimum width is 2, the sign counts, zeros go after the sign.\<close>
  "fmt_02d n = (if n < 0 then CHR ''-'' # zfill 1 (digits (nat (- n))) else zfill 2 (digits (nat n)))"

section \<open>format_time\<close>

definition format_time :: "int \<Rightarrow> int \<Rightarrow> string" where
  "format_time total_seconds0 display_mode =
     (let total_seconds = (if total_seconds0 < 0 then 0 else total_seconds0);
          hours = total_seconds div 3600;
          minutes = (total_seconds mod 3600) div 60;
          seconds = total_seconds mod 60
      in if display_mode = 0 then
           (if hours > 0 then str_int hours @ '':'' @ fmt_02d minutes @ '':'' @ fmt_02d seconds
            else if minutes > 0 then str_int minutes @ '':'' @ fmt_02d seconds
            else str_int seconds)
         else if display_mode = 1 then
           (if hours > 0 then str_int hours @ '':'' @ fmt_02d minutes @ '':'' @ fmt_02d seconds
            else if minutes > 0 then fmt_02d minutes @ '':'' @ fmt_02d seconds
            else fmt_02d seconds)
         else fmt_02d hours @ '':'' @ fmt_02d minutes @ '':'' @ fmt_02d seconds)"

definition is_digit :: "char \<Rightarrow> bool" where
  "is_digit c = (c \<in> set ''0123456789'')"

definition hours_field :: "string \<Rightarrow> string" where
  \<comment> \<open>The text before the first colon: the leading field of an \<open>H:MM:SS\<close> display.\<close>
  "hours_field s = takeWhile (\<lambda>c. c \<noteq> CHR '':'') s"

section \<open>Exceptions\<close>

text \<open>
  Every failure of the parsers is a Python \<open>ValueError\<close>; the constructors record which
  \<open>raise\<close> or library call it comes from (main.py tells them apart by message only).
  \<open>OverflowError\<close> is what the \<open>datetime\<close> library raises for a component beyond a C
  int and for a sum beyond year 9999. \<open>KeyboardInterrupt\<close> is not an \<open>Exception\<close> in
  Python's hierarchy; \<open>OtherException\<close> stands for any further \<open>Exception\<close>, such as
  an \<open>OSError\<close> of the file write.
\<close>

datatype py_exc =
    InvalidLiteral string
  | SecondsTooLarge
  | MinutesOrSecondsTooLarge
  | InvalidTimeFormat
  | InvalidDateFormat
  | YearOutOfRange int
  | MonthOutOfRange int
  | DayOutOfRange int
  | OverflowError
  | KeyboardInterrupt
  | OtherException string

fun is_ValueError :: "py_exc \<Rightarrow> bool" where
  "is_ValueError (InvalidLiteral _) = True"
| "is_ValueError SecondsTooLarge = True"
| "is_ValueError MinutesOrSecondsTooLarge = True"
| "is_ValueError InvalidTimeFormat = True"
| "is_ValueError InvalidDateFormat = True"
| "is_ValueError (YearOutOfRange _) = True"
| "is_ValueError (MonthOutOfRange _) = True"
| "is_ValueError (DayOutOfRange _) = True"
| "is_ValueError _ = False"

fun is_Exception :: "py_exc \<Rightarrow> bool" where
  \<comment> \<open>What \<open>except Exception\<close> catches.\<close>
  "is_Exception KeyboardInterrupt = False"
| "is_Exception _ = True"

section \<open>Text primitives: \<open>split\<close>, \<open>lower\<close>, \<open>int\<close>\<close>

fun split_on :: "char \<Rightarrow> string \<Rightarrow> string list" where
  \<comment> \<open>\<open>text.split(sep)\<close> for a one-character separator: never an empty list.\<close>
  "split_on sep [] = [[]]"
| "split_on sep (c # cs) =
     (if c = sep then [] # split_on sep cs
      else (case split_on sep cs of [] \<Rightarrow> [[c]] | p # ps \<Rightarrow> (c # p) # ps))"

definition lower_char :: "char \<Rightarrow> char" where
  "lower_char c =
     (let n = (of_char c :: nat) in if 65 \<le> n \<and> n \<le> 90 then char_of (n + 32) else c)"

definition lower :: "string \<Rightarrow> string" where
  "lower s = map lower_char s"

definition is_space :: "char \<Rightarrow> bool" where
  \<comment> \<open>The characters \<open>int\<close> strips from an ASCII text: tab to carriage return, and
      space. The separators 0x1C to 0x1F are not among them.\<close>
  "is_space c = (let n = (of_char c :: nat) in (9 \<le> n \<and> n \<le> 13) \<or> n = 32)"

definition strip :: "string \<Rightarrow> string" where
  "strip s = rev (dropWhile is_space (rev (dropWhile is_space s)))"

definition digit_val :: "char \<Rightarrow> nat" where
  "digit_val c = of_char c - 48"

fun scan_digits :: "bool \<Rightarrow> nat \<Rightarrow> string \<Rightarrow> nat option" where
  \<comment> \<open>Digits with single underscores between them; the flag says the previous
      character was a digit.\<close>
  "scan_digits prev acc [] = (if prev then Some acc else None)"
| "scan_digits prev acc (c # cs) =
     (if is_digit c then scan_digits True (acc * 10 + digit_val c) cs
      else if c = CHR ''_'' \<and> prev then scan_digits False acc cs
      else None)"

definition py_int :: "string \<Rightarrow> py_exc + int" where
  \<comment> \<open>\<open>int(text)\<close>, base 10: surrounding whitespace, an optional sign, the digits.
      The interpreter's cap on the number of digits (4300 by default in recent versions)
      is left out.\<close>
  "py_int text =
     (let body = strip text;
          (sign, ds) = (case body of
                          c # r \<Rightarrow> (if c = CHR ''+'' then (1, r)
                                    else if c = CHR ''-'' then (- 1, r) else (1, body))
                        | [] \<Rightarrow> (1, body))
      in case scan_digits False 0 ds of
           None \<Rightarrow> Inl (InvalidLiteral text)
         | Some n \<Rightarrow> Inr (sign * int n))"

section \<open>parse_time\<close>

definition parse_time :: "string \<Rightarrow> py_exc + int" where
  "parse_time time_str =
     (case split_on CHR '':'' time_str of
        [p0] \<Rightarrow> py_int p0
      | [p0, p1] \<Rightarrow>
          (case py_int p0 of Inl e \<Rightarrow> Inl e | Inr minutes \<Rightarrow>
           case py_int p1 of Inl e \<Rightarrow> Inl e | Inr seconds \<Rightarrow>
             if seconds \<ge> 60 then Inl SecondsTooLarge
             else Inr (minutes * 60 + seconds))
      | [p0, p1, p2] \<Rightarrow>
          (case py_int p0 of Inl e \<Rightarrow> Inl e | Inr hours \<Rightarrow>
           case py_int p1 of Inl e \<Rightarrow> Inl e | Inr minutes \<Rightarrow>
           case py_int p2 of Inl e \<Rightarrow> Inl e | Inr seconds \<Rightarrow>
             if minutes \<ge> 60 \<or> seconds \<ge> 60 then Inl MinutesOrSecondsTooLarge
             else Inr (hours * 3600 + minutes * 60 + seconds))
      | _ \<Rightarrow> Inl InvalidTimeFormat)"

section \<open>Dates: the part of \<open>datetime\<close> that parse_date and run_timer use\<close>

record datetime =
  year :: int
  month :: int
  day :: int
  hour :: int
  minute :: int
  second :: int
  microsecond :: int

definition is_leap :: "int \<Rightarrow> bool" where
  "is_leap y = (y mod 4 = 0 \<and> (y mod 100 \<noteq> 0 \<or> y mod 400 = 0))"

definition days_in_month :: "int \<Rightarrow> int \<Rightarrow> int" where
  "days_in_month y m =
     (if m = 2 then (if is_leap y then 29 else 28)
      else if m = 4 \<or> m = 6 \<or> m = 9 \<or> m = 11 then 30 else 31)"

definition c_int :: "int \<Rightarrow> bool" where
  "c_int v = (- (2 ^ 31) \<le> v \<and> v < 2 ^ 31)"

definition datetime_new :: "int \<Rightarrow> int \<Rightarrow> int \<Rightarrow> py_exc + datetime" where
  \<comment> \<open>\<open>datetime(y, m, d)\<close>: the arguments become C ints, then year, month and day are
      checked in this order; the time of day is midnight.\<close>
  "datetime_new y m d =
     (if \<not> (c_int y \<and> c_int m \<and> c_int d) then Inl OverflowError
      else if y < 1 \<or> 9999 < y then Inl (YearOutOfRange y)
      else if m < 1 \<or> 12 < m then Inl (MonthOutOfRange m)
      else if d < 1 \<or> days_in_month y m < d then Inl (DayOutOfRange d)
      else Inr \<lparr>year = y, month = m, day = d, hour = 0, minute = 0, second = 0,
                 microsecond = 0\<rparr>)"

definition midnight :: "datetime \<Rightarrow> datetime" where
  \<comment> \<open>\<open>.replace(hour=0, minute=0, second=0, microsecond=0)\<close>\<close>
  "midnight t = t\<lparr>hour := 0, minute := 0, second := 0, microsecond := 0\<rparr>"

section \<open>parse_date\<close>

definition parse_date :: "string option \<Rightarrow> datetime \<Rightarrow> py_exc + datetime" where
  \<comment> \<open>The second argument is the reading of \<open>datetime.now()\<close>; \<open>None\<close> is the
      absent \<open>--date\<close>.\<close>
  "parse_date date_str now =
     (case date_str of
        None \<Rightarrow> Inr (midnight now)
      | Some text \<Rightarrow>
          if text = [] \<or> lower text = ''null'' then Inr (midnight now)
          else (case split_on CHR ''/'' text of
                  [p0, p1] \<Rightarrow>
                    (case py_int p0 of Inl e \<Rightarrow> Inl e | Inr m \<Rightarrow>
                     case py_int p1 of Inl e \<Rightarrow> Inl e | Inr d \<Rightarrow>
                       datetime_new (year now) m d)
                | [p0, p1, p2] \<Rightarrow>
                    (case py_int p0 of Inl e \<Rightarrow> Inl e | Inr y \<Rightarrow>
                     case py_int p1 of Inl e \<Rightarrow> Inl e | Inr m \<Rightarrow>
                     case py_int p2 of Inl e \<Rightarrow> Inl e | Inr d \<Rightarrow>
                       datetime_new y m d)
                | _ \<Rightarrow> Inl InvalidDateFormat))"

section \<open>Instants and durations\<close>

text \<open>
  A \<open>datetime\<close> counts whole microseconds, and \<open>total_seconds()\<close> is that count divided
  by a million. The model keeps every duration as an integer number of microseconds:
  Python's float seconds are taken as exact.
\<close>

definition days_before_year :: "int \<Rightarrow> int" where
  "days_before_year y = (y - 1) * 365 + (y - 1) div 4 - (y - 1) div 100 + (y - 1) div 400"

definition days_before_month :: "int \<Rightarrow> int \<Rightarrow> int" where
  "days_before_month y m = sum_list (map (days_in_month y) [1..m - 1])"

definition ymd2ord :: "int \<Rightarrow> int \<Rightarrow> int \<Rightarrow> int" where
  "ymd2ord y m d = days_before_year y + days_before_month y m + d"

definition to_us :: "datetime \<Rightarrow> int" where
  \<comment> \<open>Microseconds since the day before 0001-01-01, the library's ordinal 0.\<close>
  "to_us t =
     ((ymd2ord (year t) (month t) (day t) * 86400
        + hour t * 3600 + minute t * 60 + second t) * 1000000) + microsecond t"

definition min_us :: int where
  "min_us = to_us \<lparr>year = 1, month = 1, day = 1, hour = 0, minute = 0, second = 0,
                    microsecond = 0\<rparr>"

definition max_us :: int where
  "max_us = to_us \<lparr>year = 9999, month = 12, day = 31, hour = 23, minute = 59, second = 59,
                    microsecond = 999999\<rparr>"

definition add_seconds :: "datetime \<Rightarrow> int \<Rightarrow> py_exc + int" where
  \<comment> \<open>\<open>t + timedelta(seconds=n)\<close>, as the microsecond count of the sum; a sum outside
      years 1 to 9999 is an \<open>OverflowError\<close>.\<close>
  "add_seconds t n =
     (let r = to_us t + n * 1000000
      in if r < min_us \<or> max_us < r then Inl OverflowError else Inr r)"

definition trunc_seconds :: "int \<Rightarrow> int" where
  \<comment> \<open>\<open>int(x)\<close> of a float of seconds: the whole seconds, rounded towards zero.\<close>
  "trunc_seconds us = (if 0 \<le> us then us div 1000000 else - ((- us) div 1000000))"

section \<open>TimerState\<close>

datatype confirm = Restart | Quit

record timer_state =
  running :: bool
  paused :: bool
  restart_requested :: bool
  quit_requested :: bool
  awaiting_confirm :: "confirm option"
  pause_start :: "datetime option"
  total_paused :: int

definition TimerState_init :: timer_state where
  "TimerState_init =
     \<lparr>running = True, paused = False, restart_requested = False, quit_requested = False,
      awaiting_confirm = None, pause_start = None, total_paused = 0\<rparr>"

definition pause_inv :: "timer_state \<Rightarrow> bool" where
  \<comment> \<open>The invariant of the data model: a pause start is recorded exactly while paused.\<close>
  "pause_inv s = ((pause_start s \<noteq> None) = paused s)"

section \<open>The keyboard listener: on_press\<close>

datatype key = KeyCode "char option" | SpecialKey

fun key_char :: "key \<Rightarrow> char option" where
  \<comment> \<open>\<open>key.char.lower() if hasattr(key, 'char') and key.char else None\<close>\<close>
  "key_char (KeyCode (Some c)) = Some (lower_char c)"
| "key_char (KeyCode None) = None"
| "key_char SpecialKey = None"

definition on_press :: "key \<Rightarrow> datetime \<Rightarrow> timer_state \<Rightarrow> timer_state" where
  \<comment> \<open>The datetime is what \<open>datetime.now()\<close> reads during the call.\<close>
  "on_press k now s =
     (let char = key_char k in
      case awaiting_confirm s of
        Some pending \<Rightarrow>
          if char = Some CHR ''y'' then
            (case pending of
               Restart \<Rightarrow> s\<lparr>restart_requested := True, awaiting_confirm := None\<rparr>
             | Quit \<Rightarrow> s\<lparr>quit_requested := True, awaiting_confirm := None\<rparr>)
          else if char = Some CHR ''n'' then s\<lparr>awaiting_confirm := None\<rparr>
          else s
      | None \<Rightarrow>
          if char = Some CHR ''r'' then s\<lparr>awaiting_confirm := Some Restart\<rparr>
          else if char = Some CHR ''p'' then
            (if paused s then
               (case pause_start s of
                  Some t0 \<Rightarrow> s\<lparr>total_paused := total_paused s + (to_us now - to_us t0),
                                pause_start := None, paused := False\<rparr>
                | None \<Rightarrow> s\<lparr>paused := False\<rparr>)
             else s\<lparr>pause_start := Some now, paused := True\<rparr>)
          else if char = Some CHR ''q'' then s\<lparr>awaiting_confirm := Some Quit\<rparr>
          else s)"

section \<open>run_timer\<close>

definition cycle_reset :: "timer_state \<Rightarrow> timer_state" where
  \<comment> \<open>Lines 163 to 166.\<close>
  "cycle_reset s =
     s\<lparr>restart_requested := False, total_paused := 0, pause_start := None, paused := False\<rparr>"

datatype anchors =
    ToTarget int
  | FromDuration int datetime
  | CountUp datetime

definition cycle_anchors :: "int \<Rightarrow> string \<Rightarrow> string option \<Rightarrow> datetime \<Rightarrow> py_exc + anchors" where
  \<comment> \<open>Lines 169 to 180: \<open>target_time\<close> for mode 0, \<open>duration\<close> and \<open>start_time\<close> for
      mode 1, \<open>start_time\<close> otherwise.\<close>
  "cycle_anchors mode time_str date_str now =
     (if mode = 0 then
        (case parse_date date_str now of Inl e \<Rightarrow> Inl e | Inr target_date \<Rightarrow>
         case parse_time time_str of Inl e \<Rightarrow> Inl e | Inr time_seconds \<Rightarrow>
         case add_seconds target_date time_seconds of Inl e \<Rightarrow> Inl e
         | Inr target_time \<Rightarrow> Inr (ToTarget target_time))
      else if mode = 1 then
        (case parse_time time_str of Inl e \<Rightarrow> Inl e
         | Inr duration \<Rightarrow> Inr (FromDuration duration now))
      else Inr (CountUp now))"

datatype flow = Continue | Break

fun is_ToTarget :: "anchors \<Rightarrow> bool" where
  "is_ToTarget (ToTarget _) = True"
| "is_ToTarget _ = False"

definition loop_body ::
  "anchors \<Rightarrow> int \<Rightarrow> datetime \<Rightarrow> timer_state \<Rightarrow> string list \<Rightarrow> timer_state \<times> string list \<times> flow" where
  \<comment> \<open>Lines 185 to 217: one pass of the inner loop. The string list is what
      \<open>write_output\<close> has written so far, oldest first.\<close>
  "loop_body a display now s out =
     (if paused s \<and> \<not> is_ToTarget a then (s, out, Continue)
      else case a of
        ToTarget target_time \<Rightarrow>
          (let remaining = target_time - to_us now;
               display_seconds = max 0 (trunc_seconds remaining)
           in if remaining \<le> 0 then (s\<lparr>running := False\<rparr>, out @ [format_time 0 display], Break)
              else (s, out @ [format_time display_seconds display], Continue))
      | FromDuration duration start_time \<Rightarrow>
          (let elapsed = (to_us now - to_us start_time) - total_paused s;
               remaining = duration * 1000000 - elapsed;
               display_seconds = max 0 (trunc_seconds remaining)
           in if remaining \<le> 0 then (s\<lparr>running := False\<rparr>, out @ [format_time 0 display], Break)
              else (s, out @ [format_time display_seconds display], Continue))
      | CountUp start_time \<Rightarrow>
          (let elapsed = (to_us now - to_us start_time) - total_paused s;
               display_seconds = trunc_seconds elapsed
           in (s, out @ [format_time display_seconds display], Continue)))"

text \<open>
  The listener runs on its own thread, so a run is a schedule: key presses and steps of
  the main thread, each with the clock reading it sees. The main thread's step is the code
  between two of its reads of the shared state: the head of the outer loop with the reset
  and the anchors (lines 162 to 182), one test and pass of the inner loop (184 to 217),
  and the end of a cycle (219 to 224). \<open>Fault\<close> is an exception that reaches the main thread
  from outside the model: a keyboard interrupt, or an error of the file write.
\<close>

datatype pc = AtCycleStart | InLoop anchors | AfterLoop | Returned | Raised py_exc

record world =
  st :: timer_state
  pc :: pc
  sink :: "string list"

datatype event = KeyPress key datetime | MainStep datetime | Fault py_exc

fun terminated :: "pc \<Rightarrow> bool" where
  "terminated Returned = True"
| "terminated (Raised _) = True"
| "terminated _ = False"

definition main_step :: "int \<Rightarrow> string \<Rightarrow> string option \<Rightarrow> int \<Rightarrow> datetime \<Rightarrow> world \<Rightarrow> world" where
  "main_step mode time_str date_str display now w =
     (case pc w of
        AtCycleStart \<Rightarrow>
          if \<not> running (st w) then w\<lparr>pc := Returned\<rparr>
          else (case cycle_anchors mode time_str date_str now of
                  Inl e \<Rightarrow> w\<lparr>st := cycle_reset (st w), pc := Raised e\<rparr>
                | Inr a \<Rightarrow> w\<lparr>st := cycle_reset (st w), pc := InLoop a\<rparr>)
      | InLoop a \<Rightarrow>
          if quit_requested (st w) \<or> restart_requested (st w) then w\<lparr>pc := AfterLoop\<rparr>
          else (case loop_body a display now (st w) (sink w) of
                  (s', out', fl) \<Rightarrow>
                    w\<lparr>st := s', sink := out',
                      pc := (case fl of Continue \<Rightarrow> InLoop a | Break \<Rightarrow> AfterLoop)\<rparr>)
      | AfterLoop \<Rightarrow>
          w\<lparr>st := (if quit_requested (st w) then (st w)\<lparr>running := False\<rparr> else st w),
            pc := AtCycleStart\<rparr>
      | Returned \<Rightarrow> w
      | Raised e \<Rightarrow> w)"

definition step :: "int \<Rightarrow> string \<Rightarrow> string option \<Rightarrow> int \<Rightarrow> event \<Rightarrow> world \<Rightarrow> world" where
  "step mode time_str date_str display ev w =
     (if terminated (pc w) then w
      else case ev of
        KeyPress k now \<Rightarrow> w\<lparr>st := on_press k now (st w)\<rparr>
      | MainStep now \<Rightarrow> main_step mode time_str date_str display now w
      | Fault e \<Rightarrow> w\<lparr>pc := Raised e\<rparr>)"

definition world_init :: world where
  "world_init = \<lparr>st = TimerState_init, pc = AtCycleStart, sink = []\<rparr>"

fun run_from :: "int \<Rightarrow> string \<Rightarrow> string option \<Rightarrow> int \<Rightarrow> event list \<Rightarrow> world \<Rightarrow> world" where
  "run_from mode time_str date_str display [] w = w"
| "run_from mode time_str date_str display (ev # evs) w =
     run_from mode time_str date_str display evs (step mode time_str date_str display ev w)"

definition run_timer :: "int \<Rightarrow> string \<Rightarrow> string option \<Rightarrow> int \<Rightarrow> event list \<Rightarrow> world" where
  "run_timer mode time_str date_str display evs =
     run_from mode time_str date_str display evs world_init"

section \<open>main: the handlers around run_timer\<close>

datatype console = Print string | PrintError py_exc

record outcome =
  exit_code :: int
  report :: "console list"
  writes :: "string list"

definition main_run :: "int \<Rightarrow> string \<Rightarrow> string option \<Rightarrow> int \<Rightarrow> event list \<Rightarrow> outcome option" where
  \<comment> \<open>Lines 348 to 355, for a configuration already chosen. \<open>report\<close> is what the two
      handlers print, \<open>writes\<close> every text given to \<open>write_output\<close>, oldest first.
      \<open>None\<close>: the schedule ends with the timer still going.\<close>
  "main_run mode time_str date_str display evs =
     (let w = run_timer mode time_str date_str display evs in
      case pc w of
        Returned \<Rightarrow> Some \<lparr>exit_code = 0, report = [], writes = sink w\<rparr>
      | Raised e \<Rightarrow>
          if e = KeyboardInterrupt then
            Some \<lparr>exit_code = 0, report = [Print ''\<newline>Interrupted by user''],
                  writes = sink w @ [[]]\<rparr>
          else Some \<lparr>exit_code = 1, report = [PrintError e], writes = sink w\<rparr>
      | _ \<Rightarrow> None)"

section \<open>Vocabulary of the claims about dates\<close>

definition valid_date :: "int \<Rightarrow> int \<Rightarrow> int \<Rightarrow> bool" where
  \<comment> \<open>A date of the calendar that \<open>datetime\<close> covers: years 1 to 9999.\<close>
  "valid_date y m d =
     (1 \<le> y \<and> y \<le> 9999 \<and> 1 \<le> m \<and> m \<le> 12 \<and> 1 \<le> d \<and> d \<le> days_in_month y m)"

fun is_date_error :: "py_exc \<Rightarrow> bool" where
  \<comment> \<open>The exceptions of the \<open>datetime\<close> constructor: the spec's InvalidDate.\<close>
  "is_date_error (YearOutOfRange _) = True"
| "is_date_error (MonthOutOfRange _) = True"
| "is_date_error (DayOutOfRange _) = True"
| "is_date_error OverflowError = True"
| "is_date_error _ = False"

section \<open>Vocabulary of the claims about runs\<close>

fun is_pause_press :: "event \<Rightarrow> bool" where
  \<comment> \<open>A press of the pause key, \<open>p\<close> or \<open>P\<close>.\<close>
  "is_pause_press (KeyPress k now) = (key_char k = Some CHR ''p'')"
| "is_pause_press _ = False"

definition without_pause :: "event list \<Rightarrow> event list" where
  "without_pause evs = filter (\<lambda>ev. \<not> is_pause_press ev) evs"

definition same_control :: "world \<Rightarrow> world \<Rightarrow> bool" where
  \<comment> \<open>Two worlds that agree on everything but the pause bookkeeping.\<close>
  "same_control w w' =
     (pc w = pc w' \<and> sink w = sink w'
      \<and> running (st w) = running (st w')
      \<and> restart_requested (st w) = restart_requested (st w')
      \<and> quit_requested (st w) = quit_requested (st w')
      \<and> awaiting_confirm (st w) = awaiting_confirm (st w'))"

fun to_target_pc :: "pc \<Rightarrow> bool" where
  \<comment> \<open>The inner loop, if running, runs on a target time: what mode 0 sets up.\<close>
  "to_target_pc (InLoop a) = is_ToTarget a"
| "to_target_pc _ = True"

definition clock :: "int \<Rightarrow> datetime" where
  \<comment> \<open>Sample clock readings: the given second after 2024-03-05 12:00:00.\<close>
  "clock n = \<lparr>year = 2024, month = 3, day = 5, hour = 12, minute = 0, second = n,
               microsecond = 0\<rparr>"

definition press :: "char \<Rightarrow> int \<Rightarrow> event" where
  \<comment> \<open>Sample key press: a character key at a sample clock reading.\<close>
  "press c n = KeyPress (KeyCode (Some c)) (clock n)"

definition late_quit_schedule :: "event list" where
  \<comment> \<open>Sample schedule: a restart is confirmed, then a quit is asked for and confirmed
      only after the main thread has passed its test of \<open>quit_requested\<close> on line 219.\<close>
  "late_quit_schedule =
     [MainStep (clock 0), press CHR ''r'' 1, press CHR ''y'' 2, press CHR ''q'' 3,
      MainStep (clock 4), MainStep (clock 5), press CHR ''y'' 6]"

section \<open>Decimal text: basic facts\<close>

lemma digits_small: "n < 10 \<Longrightarrow> digits n = [digit_char n]"
  by (simp add: digits.simps [of n])

lemma digits_large: "\<not> n < 10 \<Longrightarrow> digits n = digits (n div 10) @ [digit_char (n mod 10)]"
  by (simp add: digits.simps [of n])

lemma digit_cases: "d < 10 \<Longrightarrow> d \<in> {0, 1, 2, 3, 4, 5, 6, 7, 8, 9::nat}"
  by auto

lemma digit_char_is_digit: "d < 10 \<Longrightarrow> is_digit (digit_char d)"
  by (drule digit_cases) (auto simp: is_digit_def digit_char_def)

lemma digit_char_zero: "digit_char 0 = CHR ''0''"
  by (simp add: digit_char_def)

lemma digit_char_eq_zero: "d < 10 \<Longrightarrow> digit_char d = CHR ''0'' \<longleftrightarrow> d = 0"
  by (drule digit_cases) (auto simp: digit_char_def)

lemma digits_all: "list_all is_digit (digits n)"
proof (induction n rule: digits.induct)
  case (1 n)
  show ?case
  proof (cases "n < 10")
    case True
    then show ?thesis by (simp add: digits_small digit_char_is_digit)
  next
    case False
    with 1 show ?thesis by (simp add: digits_large digit_char_is_digit)
  qed
qed

lemma digits_nonempty: "digits n \<noteq> []"
  by (cases "n < 10") (simp_all add: digits_small digits_large)

lemma hd_digits: "0 < n \<Longrightarrow> hd (digits n) \<noteq> CHR ''0''"
proof (induction n rule: digits.induct)
  case (1 n)
  show ?case
  proof (cases "n < 10")
    case True
    with 1(2) show ?thesis by (simp add: digits_small digit_char_eq_zero)
  next
    case False
    with 1 show ?thesis by (simp add: digits_large digits_nonempty)
  qed
qed

lemma colon_not_digit: "\<not> is_digit CHR '':''"
  by (simp add: is_digit_def)

lemma digits_no_colon: "CHR '':'' \<notin> set (digits n)"
  using digits_all [of n] colon_not_digit by (auto simp: list_all_iff)

lemma zfill_no_colon: "CHR '':'' \<notin> set s \<Longrightarrow> CHR '':'' \<notin> set (zfill w s)"
  by (auto simp: zfill_def)

lemma zfill2_digits:
  "n < 100 \<Longrightarrow> zfill 2 (digits n) = [digit_char (n div 10), digit_char (n mod 10)]"
  by (cases "n < 10") (simp_all add: zfill_def digits_small digits_large digit_char_zero)

lemma fmt_02d_small:
  "0 \<le> n \<Longrightarrow> n < 100 \<Longrightarrow> fmt_02d n = [digit_char (nat n div 10), digit_char (nat n mod 10)]"
  by (simp add: fmt_02d_def zfill2_digits)

lemma fmt_02d_no_colon: "0 \<le> n \<Longrightarrow> CHR '':'' \<notin> set (fmt_02d n)"
  by (simp add: fmt_02d_def zfill_no_colon digits_no_colon)

lemma str_int_no_colon: "0 \<le> n \<Longrightarrow> CHR '':'' \<notin> set (str_int n)"
  by (simp add: str_int_def digits_no_colon)

lemma hours_field_prefix: "CHR '':'' \<notin> set s \<Longrightarrow> hours_field (s @ CHR '':'' # r) = s"
  by (induction s) (auto simp: hours_field_def)

section \<open>format_time: the claims\<close>

text \<open>
  C1, as amended. The claim says that for every \<open>x \<ge> 0\<close> display mode 2 gives exactly 8
  characters \<open>HH:MM:SS\<close>. The width 2 of \<open>02d\<close> is a minimum: the claim holds as long as
  the hours have at most two digits, that is for \<open>0 \<le> x < 360000\<close>. There the text is
  two digits of hours, a colon, two digits of minutes, a colon, two digits of seconds.
\<close>

theorem format_time_mode2_shape:
  assumes "0 \<le> x" and "x < 360000"
  shows "format_time x 2 =
    [digit_char (nat (x div 3600) div 10), digit_char (nat (x div 3600) mod 10), CHR '':'',
     digit_char (nat (x mod 3600 div 60) div 10), digit_char (nat (x mod 3600 div 60) mod 10),
     CHR '':'',
     digit_char (nat (x mod 60) div 10), digit_char (nat (x mod 60) mod 10)]
    \<and> length (format_time x 2) = 8"
proof -
  have h: "0 \<le> x div 3600" "x div 3600 < 100" using assms by auto
  have m: "0 \<le> x mod 3600 div 60" "x mod 3600 div 60 < 100" by auto
  have s: "0 \<le> x mod 60" "x mod 60 < 100" by auto
  have fh: "fmt_02d (x div 3600) =
      [digit_char (nat (x div 3600) div 10), digit_char (nat (x div 3600) mod 10)]"
    using h by (rule fmt_02d_small)
  have fm: "fmt_02d (x mod 3600 div 60) =
      [digit_char (nat (x mod 3600 div 60) div 10), digit_char (nat (x mod 3600 div 60) mod 10)]"
    using m by (rule fmt_02d_small)
  have fs: "fmt_02d (x mod 60) =
      [digit_char (nat (x mod 60) div 10), digit_char (nat (x mod 60) mod 10)]"
    using s by (rule fmt_02d_small)
  have "format_time x 2 =
      fmt_02d (x div 3600) @ '':'' @ fmt_02d (x mod 3600 div 60) @ '':'' @ fmt_02d (x mod 60)"
    using assms(1) by (simp add: format_time_def Let_def)
  then show ?thesis
    by (simp only: fh fm fs) simp
qed

theorem format_time_mode2_shape_witness:
  "(0::int) \<le> 3725 \<and> (3725::int) < 360000 \<and> format_time 3725 2 = ''01:02:05''
   \<and> length (format_time 3725 2) = 8"
  using format_time_mode2_shape [of 3725] by (simp add: digit_char_def)

text \<open>
  C1, the counterexample: at 100 hours the hours field has three digits and the text has
  9 characters.
\<close>

theorem format_time_mode2_counterexample:
  "(0::int) \<le> 360000 \<and> format_time 360000 2 = ''100:00:00''
   \<and> length (format_time 360000 2) \<noteq> 8"
  by (simp add: format_time_def fmt_02d_def zfill_def digits_large digits_small digit_char_def)

text \<open>
  C2, as amended. The claim says that the hours are never zero-padded in any mode. In
  display modes 0 and 1 the hours field is there when the hours are positive, and it is
  the plain decimal text of the hours, which does not start with a zero. In every other
  mode (mode 2) the hours field is always there and is zero-padded to two digits:
  below ten hours it is a zero and one digit.
\<close>

theorem format_time_hours_field:
  "(3600 \<le> x \<and> (m = 0 \<or> m = 1) \<longrightarrow>
      hours_field (format_time x m) = str_int (x div 3600)
      \<and> hd (str_int (x div 3600)) \<noteq> CHR ''0'')
   \<and> (m \<noteq> 0 \<and> m \<noteq> 1 \<longrightarrow>
      hours_field (format_time x m) = fmt_02d (max 0 x div 3600))
   \<and> (m \<noteq> 0 \<and> m \<noteq> 1 \<and> 0 \<le> x \<and> x < 36000 \<longrightarrow>
      hours_field (format_time x m) = [CHR ''0'', digit_char (nat (x div 3600))])"
proof (intro conjI impI)
  assume a: "3600 \<le> x \<and> (m = 0 \<or> m = 1)"
  then have h: "0 < x div 3600" by auto
  then have nc: "CHR '':'' \<notin> set (str_int (x div 3600))"
    by (simp add: str_int_no_colon)
  from a h show "hours_field (format_time x m) = str_int (x div 3600)"
    using hours_field_prefix [OF nc] by (auto simp: format_time_def Let_def)
  from h show "hd (str_int (x div 3600)) \<noteq> CHR ''0''"
    by (simp add: str_int_def hd_digits)
next
  assume a: "m \<noteq> 0 \<and> m \<noteq> 1"
  have h: "0 \<le> max 0 x div 3600" by auto
  have eq: "(if x < 0 then 0 else x) = max 0 x" by auto
  from a show "hours_field (format_time x m) = fmt_02d (max 0 x div 3600)"
    using hours_field_prefix [OF fmt_02d_no_colon [OF h]]
    by (simp add: format_time_def Let_def eq)
next
  assume a: "m \<noteq> 0 \<and> m \<noteq> 1 \<and> 0 \<le> x \<and> x < 36000"
  then have h: "0 \<le> x div 3600" "x div 3600 < 10" by auto
  then have f: "fmt_02d (x div 3600) = [CHR ''0'', digit_char (nat (x div 3600))]"
    by (simp add: fmt_02d_small digit_char_zero)
  have nc: "CHR '':'' \<notin> set (fmt_02d (x div 3600))"
    using h by (simp add: fmt_02d_no_colon)
  from a show "hours_field (format_time x m) = [CHR ''0'', digit_char (nat (x div 3600))]"
    using hours_field_prefix [OF nc] by (simp add: format_time_def Let_def f)
qed

theorem format_time_hours_field_witness:
  "(3600::int) \<le> 3725 \<and> hours_field (format_time 3725 0) = ''1''
   \<and> hours_field (format_time 3725 1) = ''1''
   \<and> (2::int) \<noteq> 0 \<and> (2::int) \<noteq> 1 \<and> (0::int) \<le> 3725 \<and> (3725::int) < 36000
   \<and> hours_field (format_time 3725 2) = ''01''"
  using format_time_hours_field [of 3725 0] format_time_hours_field [of 3725 1]
    format_time_hours_field [of 3725 2]
  by (simp add: str_int_def fmt_02d_def zfill_def digits_small digit_char_def)

text \<open>
  C2, the counterexample: in mode 2 one hour is shown as \<open>01\<close>, not as the plain \<open>1\<close>.
\<close>

theorem format_time_hours_counterexample:
  "format_time 3600 2 = ''01:00:00''
   \<and> hours_field (format_time 3600 2) = ''01''
   \<and> hours_field (format_time 3600 2) \<noteq> str_int (3600 div 3600)"
  by (simp add: format_time_def fmt_02d_def zfill_def digits_small digit_char_def
      hours_field_def str_int_def)

section \<open>Splitting and reading integers: basic facts\<close>

lemma split_on_nonempty: "split_on sep s \<noteq> []"
  by (induction s) (auto split: list.splits)

lemma split_on_single: "sep \<notin> set a \<Longrightarrow> split_on sep a = [a]"
  by (induction a) auto

lemma split_on_append:
  "sep \<notin> set a \<Longrightarrow> split_on sep (a @ sep # r) = a # split_on sep r"
  by (induction a) (auto simp: split_on_nonempty split: list.splits)

lemma split_on_two:
  "sep \<notin> set a \<Longrightarrow> sep \<notin> set b \<Longrightarrow> split_on sep (a @ sep # b) = [a, b]"
  by (simp add: split_on_append split_on_single)

lemma split_on_three:
  "sep \<notin> set a \<Longrightarrow> sep \<notin> set b \<Longrightarrow> sep \<notin> set c \<Longrightarrow>
   split_on sep (a @ sep # b @ sep # c) = [a, b, c]"
  by (simp add: split_on_append split_on_single)

lemma py_int_error: "py_int p = Inl e \<Longrightarrow> e = InvalidLiteral p"
  by (auto simp: py_int_def Let_def split: option.splits prod.splits)

lemma digit_val_digit_char: "d < 10 \<Longrightarrow> digit_val (digit_char d) = d"
  by (drule digit_cases) (auto simp: digit_val_def digit_char_def)

lemma scan_digits_digits:
  "scan_digits p acc (digits k @ ys) = scan_digits True (acc * 10 ^ length (digits k) + k) ys"
proof (induction k arbitrary: p acc ys rule: digits.induct)
  case (1 n)
  show ?case
  proof (cases "n < 10")
    case True
    then show ?thesis
      by (simp add: digits_small digit_char_is_digit digit_val_digit_char)
  next
    case False
    have d: "n mod 10 < 10" by simp
    have "scan_digits p acc (digits n @ ys)
        = scan_digits p acc (digits (n div 10) @ (digit_char (n mod 10) # ys))"
      using False by (simp add: digits_large)
    also have "\<dots> = scan_digits True (acc * 10 ^ length (digits (n div 10)) + n div 10)
        (digit_char (n mod 10) # ys)"
      using False by (rule "1.IH")
    also have "\<dots> = scan_digits True
        ((acc * 10 ^ length (digits (n div 10)) + n div 10) * 10 + n mod 10) ys"
      using d by (simp add: digit_char_is_digit digit_val_digit_char)
    also have "(acc * 10 ^ length (digits (n div 10)) + n div 10) * 10 + n mod 10
        = acc * 10 ^ length (digits n) + n"
      using False by (simp add: digits_large algebra_simps)
    finally show ?thesis .
  qed
qed

lemma scan_digits_roundtrip: "scan_digits False 0 (digits k) = Some k"
  using scan_digits_digits [of False 0 k "[]"] by simp

lemma digit_not_space: "is_digit c \<Longrightarrow> \<not> is_space c"
  by (auto simp: is_digit_def is_space_def)

lemma digit_not_sign: "is_digit c \<Longrightarrow> c \<noteq> CHR ''+'' \<and> c \<noteq> CHR ''-''"
  by (auto simp: is_digit_def)

lemma hd_digits_digit: "is_digit (hd (digits k))"
  using digits_all [of k] digits_nonempty [of k] by (cases "digits k") auto

lemma last_digits_digit: "is_digit (last (digits k))"
  using digits_all [of k] digits_nonempty [of k] by (auto simp: list_all_iff)

lemma strip_id: "s \<noteq> [] \<Longrightarrow> \<not> is_space (hd s) \<Longrightarrow> \<not> is_space (last s) \<Longrightarrow> strip s = s"
proof -
  assume s: "s \<noteq> []" and h: "\<not> is_space (hd s)" and l: "\<not> is_space (last s)"
  from s h have 1: "dropWhile is_space s = s" by (cases s) auto
  from s l have 2: "dropWhile is_space (rev s) = rev s"
    by (cases "rev s") (auto simp: last_rev [symmetric])
  show ?thesis by (simp add: strip_def 1 2)
qed

lemma strip_digits: "strip (digits k) = digits k"
  by (rule strip_id) (simp_all add: digits_nonempty digit_not_space hd_digits_digit last_digits_digit)

lemma minus_not_space: "\<not> is_space CHR ''-''"
  by (simp add: is_space_def)

lemma strip_minus_digits: "strip (CHR ''-'' # digits k) = CHR ''-'' # digits k"
  by (rule strip_id)
    (simp_all add: digits_nonempty digit_not_space last_digits_digit minus_not_space)

lemma py_int_str_int: "py_int (str_int n) = Inr n"
proof (cases "n < 0")
  case True
  then show ?thesis
    by (simp add: py_int_def str_int_def strip_minus_digits scan_digits_roundtrip)
next
  case False
  obtain c r where cr: "digits (nat n) = c # r"
    using digits_nonempty [of "nat n"] by (cases "digits (nat n)") auto
  have "is_digit c" using hd_digits_digit [of "nat n"] cr by simp
  then have ns: "c \<noteq> CHR ''+''" "c \<noteq> CHR ''-''" using digit_not_sign by auto
  have sc: "scan_digits False 0 (c # r) = Some (nat n)"
    using scan_digits_roundtrip [of "nat n"] cr by simp
  have st: "strip (c # r) = c # r" using strip_digits [of "nat n"] cr by simp
  from False show ?thesis
    unfolding py_int_def str_int_def
    by (simp add: cr st ns sc del: scan_digits.simps)
qed

lemma str_int_no_sep: "c \<noteq> CHR ''-'' \<Longrightarrow> \<not> is_digit c \<Longrightarrow> c \<notin> set (str_int n)"
  using digits_all [of "nat n"] digits_all [of "nat (- n)"]
  by (auto simp: str_int_def list_all_iff)

section \<open>parse_time: the claims\<close>

lemma parse_time_one: "CHR '':'' \<notin> set a \<Longrightarrow> parse_time a = py_int a"
  by (simp add: parse_time_def split_on_single)

lemma parse_time_two:
  assumes "CHR '':'' \<notin> set a" "CHR '':'' \<notin> set b" "py_int a = Inr m" "py_int b = Inr s"
  shows "parse_time (a @ '':'' @ b) =
    (if 60 \<le> s then Inl SecondsTooLarge else Inr (m * 60 + s))"
  using assms by (simp add: parse_time_def split_on_two)

lemma parse_time_three:
  assumes "CHR '':'' \<notin> set a" "CHR '':'' \<notin> set b" "CHR '':'' \<notin> set c"
    "py_int a = Inr h" "py_int b = Inr m" "py_int c = Inr s"
  shows "parse_time (a @ '':'' @ b @ '':'' @ c) =
    (if 60 \<le> m \<or> 60 \<le> s then Inl MinutesOrSecondsTooLarge
     else Inr (h * 3600 + m * 60 + s))"
  using assms by (simp add: parse_time_def split_on_three)

lemma parse_time_many: "3 < length (split_on CHR '':'' t) \<Longrightarrow> parse_time t = Inl InvalidTimeFormat"
  by (auto simp: parse_time_def split: list.splits)

lemma parse_time_bad_part:
  assumes "p \<in> set (split_on CHR '':'' t)" "py_int p = Inl e"
  shows "\<exists>e'. parse_time t = Inl e'"
  using assms by (auto simp: parse_time_def split: list.splits sum.splits)

lemma parse_time_ValueError: "parse_time t = Inl e \<Longrightarrow> is_ValueError e"
  by (auto simp: parse_time_def split: list.splits sum.splits if_splits dest!: py_int_error)

lemma parse_time_examples:
  "parse_time ''90'' = Inr 90" "parse_time ''1:30'' = Inr 90"
  "parse_time ''1:00:00'' = Inr 3600" "parse_time ''1:60'' = Inl SecondsTooLarge"
  "parse_time ''1:2:3:4'' = Inl InvalidTimeFormat"
  by code_simp+

lemma parse_time_negative_examples:
  "parse_time ''-5'' = Inr (- 5)" "parse_time ''1:-5'' = Inr 55"
  by code_simp+

text \<open>
  C7. parse_time splits on the colon. One part is read as an integer and returned as
  seconds; two parts \<open>m:s\<close> give \<open>m * 60 + s\<close>, and fail when \<open>s \<ge> 60\<close>; three parts
  \<open>h:m:s\<close> give \<open>h * 3600 + m * 60 + s\<close>, and fail when \<open>m \<ge> 60\<close> or \<open>s \<ge> 60\<close>; more
  parts fail; a part that is not an integer fails. Every failure is a \<open>ValueError\<close>, the
  code's form of the spec's InvalidFormat. The five examples of the spec hold.
\<close>

theorem parse_time_spec:
  "(CHR '':'' \<notin> set a \<longrightarrow> parse_time a = py_int a)
   \<and> (CHR '':'' \<notin> set p0 \<and> CHR '':'' \<notin> set p1
        \<and> py_int p0 = Inr minutes \<and> py_int p1 = Inr seconds \<longrightarrow>
        parse_time (p0 @ '':'' @ p1) =
          (if 60 \<le> seconds then Inl SecondsTooLarge else Inr (minutes * 60 + seconds)))
   \<and> (CHR '':'' \<notin> set q0 \<and> CHR '':'' \<notin> set q1 \<and> CHR '':'' \<notin> set q2
        \<and> py_int q0 = Inr h \<and> py_int q1 = Inr m \<and> py_int q2 = Inr s \<longrightarrow>
        parse_time (q0 @ '':'' @ q1 @ '':'' @ q2) =
          (if 60 \<le> m \<or> 60 \<le> s then Inl MinutesOrSecondsTooLarge
           else Inr (h * 3600 + m * 60 + s)))
   \<and> (3 < length (split_on CHR '':'' t) \<longrightarrow> parse_time t = Inl InvalidTimeFormat)
   \<and> ((\<exists>p \<in> set (split_on CHR '':'' u). \<exists>e'. py_int p = Inl e') \<longrightarrow>
        (\<exists>e'. parse_time u = Inl e'))
   \<and> (parse_time v = Inl e \<longrightarrow> is_ValueError e)
   \<and> parse_time ''90'' = Inr 90 \<and> parse_time ''1:30'' = Inr 90
   \<and> parse_time ''1:00:00'' = Inr 3600 \<and> parse_time ''1:60'' = Inl SecondsTooLarge
   \<and> parse_time ''1:2:3:4'' = Inl InvalidTimeFormat"
  using parse_time_one [of a] parse_time_two [of p0 p1 minutes seconds]
    parse_time_three [of q0 q1 q2 h m s]
    parse_time_many [of t] parse_time_bad_part [of _ u] parse_time_ValueError [of v e]
    parse_time_examples
  by blast

lemma py_int_small_examples:
  "py_int ''2'' = Inr 2" "py_int ''5'' = Inr 5" "py_int ''07'' = Inr 7" "py_int ''75'' = Inr 75"
  "py_int ''x'' = Inl (InvalidLiteral ''x'')"
  "split_on CHR '':'' ''1:2:3:4'' = [''1'', ''2'', ''3'', ''4'']"
  "split_on CHR '':'' ''5:x'' = [''5'', ''x'']"
  by code_simp+

lemma py_int_blank_examples:
  "py_int [CHR 0x09, CHR ''7'', CHR '' ''] = Inr 7"
  "py_int [CHR 0x1F, CHR ''7''] = Inl (InvalidLiteral [CHR 0x1F, CHR ''7''])"
  "py_int [CHR ''7'', CHR 0x1C] = Inl (InvalidLiteral [CHR ''7'', CHR 0x1C])"
  by code_simp+

theorem parse_time_spec_witness:
  "CHR '':'' \<notin> set ''2'' \<and> CHR '':'' \<notin> set ''5'' \<and> CHR '':'' \<notin> set ''07''
   \<and> py_int ''2'' = Inr 2 \<and> py_int ''5'' = Inr 5 \<and> py_int ''07'' = Inr 7
   \<and> py_int ''75'' = Inr 75
   \<and> parse_time ''2'' = Inr 2
   \<and> parse_time (''2'' @ '':'' @ ''5'') = Inr 125
   \<and> parse_time (''2'' @ '':'' @ ''75'') = Inl SecondsTooLarge
   \<and> parse_time (''2'' @ '':'' @ ''5'' @ '':'' @ ''07'') = Inr 7507
   \<and> 3 < length (split_on CHR '':'' ''1:2:3:4'')
   \<and> parse_time ''1:2:3:4'' = Inl InvalidTimeFormat
   \<and> (\<exists>p \<in> set (split_on CHR '':'' ''5:x''). \<exists>e'. py_int p = Inl e')
   \<and> parse_time ''5:x'' = Inl (InvalidLiteral ''x'')
   \<and> is_ValueError (InvalidLiteral ''x'')
   \<and> CHR '':'' \<notin> set [CHR 0x1F, CHR ''7'']
   \<and> parse_time [CHR 0x1F, CHR ''7''] = Inl (InvalidLiteral [CHR 0x1F, CHR ''7''])
   \<and> parse_time [CHR 0x09, CHR ''7'', CHR '' ''] = Inr 7"
proof -
  have x: "parse_time ''5:x'' = Inl (InvalidLiteral ''x'')" by code_simp
  show ?thesis
    using parse_time_spec [where a = "''2''" and ?p0.0 = "''2''" and ?p1.0 = "''5''"
        and minutes = 2 and seconds = 5 and ?q0.0 = "''2''" and ?q1.0 = "''5''"
        and ?q2.0 = "''07''" and h = 2 and m = 5 and s = 7 and t = "''1:2:3:4''"
        and u = "''5:x''" and v = "''5:x''" and e = "InvalidLiteral ''x''"]
      parse_time_spec [where ?p0.0 = "''2''" and ?p1.0 = "''75''"
        and minutes = 2 and seconds = 75]
      parse_time_spec [where a = "[CHR 0x1F, CHR ''7'']"]
      parse_time_spec [where a = "[CHR 0x09, CHR ''7'', CHR '' '']"]
    by (simp add: py_int_small_examples py_int_blank_examples x)
qed

text \<open>
  C10. parse_time has no check that a component is non-negative. The decimal text of any
  integer \<open>n\<close>, negative ones included, is accepted as a one-part input and gives \<open>n\<close>
  back; in the two-part and three-part forms every component may be negative, and the
  result is the signed sum. The two examples: \<open>-5\<close> gives -5 and \<open>1:-5\<close> gives 55.
\<close>

theorem parse_time_accepts_negative:
  "parse_time (str_int n) = Inr n
   \<and> (s < 60 \<longrightarrow> parse_time (str_int m @ '':'' @ str_int s) = Inr (m * 60 + s))
   \<and> (m < 60 \<and> s < 60 \<longrightarrow>
        parse_time (str_int h @ '':'' @ str_int m @ '':'' @ str_int s)
          = Inr (h * 3600 + m * 60 + s))
   \<and> parse_time ''-5'' = Inr (- 5) \<and> parse_time ''1:-5'' = Inr 55"
proof -
  have nc: "\<And>k. CHR '':'' \<notin> set (str_int k)"
    by (rule str_int_no_sep) (simp_all add: colon_not_digit)
  have 1: "parse_time (str_int n) = Inr n"
    using parse_time_one [OF nc] by (simp add: py_int_str_int)
  have 2: "s < 60 \<longrightarrow> parse_time (str_int m @ '':'' @ str_int s) = Inr (m * 60 + s)"
    using parse_time_two [OF nc nc py_int_str_int py_int_str_int, of m s] by simp
  have 3: "m < 60 \<and> s < 60 \<longrightarrow>
      parse_time (str_int h @ '':'' @ str_int m @ '':'' @ str_int s)
        = Inr (h * 3600 + m * 60 + s)"
    using parse_time_three [OF nc nc nc py_int_str_int py_int_str_int py_int_str_int, of h m s]
    by simp
  from 1 2 3 parse_time_negative_examples show ?thesis by blast
qed

lemma str_int_examples:
  "str_int (- 7) = ''-7''" "str_int (- 2) = ''-2''" "str_int (- 30) = ''-30''"
  by code_simp+

theorem parse_time_accepts_negative_witness:
  "(- 30 :: int) < 60 \<and> (- 2 :: int) < 60
   \<and> parse_time ''-7'' = Inr (- 7)
   \<and> parse_time (''-2'' @ '':'' @ ''-30'') = Inr (- 150)
   \<and> parse_time (''-7'' @ '':'' @ ''-2'' @ '':'' @ ''-30'') = Inr (- 25350)"
  using parse_time_accepts_negative [of "- 7" "- 30" "- 2" "- 7"]
  by (simp add: str_int_examples)

section \<open>parse_date: the claim\<close>

lemma lower_char_slash: "lower_char CHR ''/'' = CHR ''/''"
  by (simp add: lower_char_def)

lemma slash_not_null: "CHR ''/'' \<in> set t \<Longrightarrow> lower t \<noteq> ''null''"
proof
  assume a: "CHR ''/'' \<in> set t" and b: "lower t = ''null''"
  from a have "lower_char CHR ''/'' \<in> set (lower t)"
    unfolding lower_def by (simp add: image_eqI)
  with b show False by (simp add: lower_char_slash)
qed

lemma parse_date_today:
  "parse_date None now = Inr (midnight now)"
  "parse_date (Some []) now = Inr (midnight now)"
  "lower t = ''null'' \<Longrightarrow> parse_date (Some t) now = Inr (midnight now)"
  by (simp_all add: parse_date_def)

lemma parse_date_two:
  assumes "CHR ''/'' \<notin> set a" "CHR ''/'' \<notin> set b" "py_int a = Inr m" "py_int b = Inr d"
  shows "parse_date (Some (a @ ''/'' @ b)) now = datetime_new (year now) m d"
proof -
  have "lower (a @ ''/'' @ b) \<noteq> ''null''" by (rule slash_not_null) simp
  with assms show ?thesis by (simp add: parse_date_def split_on_two)
qed

lemma parse_date_three:
  assumes "CHR ''/'' \<notin> set a" "CHR ''/'' \<notin> set b" "CHR ''/'' \<notin> set c"
    "py_int a = Inr y" "py_int b = Inr m" "py_int c = Inr d"
  shows "parse_date (Some (a @ ''/'' @ b @ ''/'' @ c)) now = datetime_new y m d"
proof -
  have "lower (a @ ''/'' @ b @ ''/'' @ c) \<noteq> ''null''" by (rule slash_not_null) simp
  with assms show ?thesis by (simp add: parse_date_def split_on_three)
qed

lemma parse_date_other_count:
  assumes "t \<noteq> []" "lower t \<noteq> ''null''"
    "length (split_on CHR ''/'' t) \<noteq> 2" "length (split_on CHR ''/'' t) \<noteq> 3"
  shows "parse_date (Some t) now = Inl InvalidDateFormat"
  using assms by (auto simp: parse_date_def split: list.splits)

lemma datetime_new_valid:
  assumes "valid_date y m d"
  shows "datetime_new y m d =
    Inr \<lparr>year = y, month = m, day = d, hour = 0, minute = 0, second = 0, microsecond = 0\<rparr>"
proof -
  have "days_in_month y m \<le> 31" by (simp add: days_in_month_def)
  with assms have "c_int y" "c_int m" "c_int d"
    by (simp_all add: valid_date_def c_int_def)
  with assms show ?thesis by (simp add: datetime_new_def valid_date_def)
qed

lemma datetime_new_invalid:
  assumes "\<not> valid_date y m d"
  shows "\<exists>e. datetime_new y m d = Inl e \<and> is_date_error e"
  using assms by (auto simp: datetime_new_def valid_date_def)

lemma parse_date_month13:
  "parse_date (Some ''2024/13/1'') now = Inl (MonthOutOfRange 13)"
proof -
  have p: "py_int ''2024'' = Inr 2024" "py_int ''13'' = Inr 13" "py_int ''1'' = Inr 1"
    by code_simp+
  have "parse_date (Some (''2024'' @ ''/'' @ ''13'' @ ''/'' @ ''1'')) now = datetime_new 2024 13 1"
    by (rule parse_date_three) (simp_all add: p)
  then show ?thesis by (simp add: datetime_new_def c_int_def)
qed

text \<open>
  C8. parse_date gives today's date at 00:00:00 for the absent date, the empty string and
  any spelling of \<open>null\<close>; builds \<open>m/d\<close> in the current year and \<open>y/m/d\<close> as given, at
  midnight, when the date exists; fails with the \<open>ValueError\<close> \<open>Invalid date format\<close> (the
  spec's InvalidFormat) for any other number of parts; and fails with an exception of the
  \<open>datetime\<close> constructor (the spec's InvalidDate) when the date does not exist, as for
  month 13.
\<close>

theorem parse_date_spec:
  "parse_date None now = Inr (midnight now)
   \<and> parse_date (Some []) now = Inr (midnight now)
   \<and> (lower t = ''null'' \<longrightarrow> parse_date (Some t) now = Inr (midnight now))
   \<and> midnight now = \<lparr>year = year now, month = month now, day = day now,
        hour = 0, minute = 0, second = 0, microsecond = 0\<rparr>
   \<and> (CHR ''/'' \<notin> set p0 \<and> CHR ''/'' \<notin> set p1 \<and> py_int p0 = Inr m0 \<and> py_int p1 = Inr d0 \<longrightarrow>
        parse_date (Some (p0 @ ''/'' @ p1)) now = datetime_new (year now) m0 d0)
   \<and> (CHR ''/'' \<notin> set q0 \<and> CHR ''/'' \<notin> set q1 \<and> CHR ''/'' \<notin> set q2
        \<and> py_int q0 = Inr y1 \<and> py_int q1 = Inr m1 \<and> py_int q2 = Inr d1 \<longrightarrow>
        parse_date (Some (q0 @ ''/'' @ q1 @ ''/'' @ q2)) now = datetime_new y1 m1 d1)
   \<and> (valid_date y m d \<longrightarrow>
        datetime_new y m d = Inr \<lparr>year = y, month = m, day = d,
          hour = 0, minute = 0, second = 0, microsecond = 0\<rparr>)
   \<and> (\<not> valid_date y' m' d' \<longrightarrow> (\<exists>e. datetime_new y' m' d' = Inl e \<and> is_date_error e))
   \<and> (u \<noteq> [] \<and> lower u \<noteq> ''null''
        \<and> length (split_on CHR ''/'' u) \<noteq> 2 \<and> length (split_on CHR ''/'' u) \<noteq> 3 \<longrightarrow>
        parse_date (Some u) now = Inl InvalidDateFormat)
   \<and> parse_date (Some ''2024/13/1'') now = Inl (MonthOutOfRange 13)"
proof -
  have mid: "midnight now = \<lparr>year = year now, month = month now, day = day now,
        hour = 0, minute = 0, second = 0, microsecond = 0\<rparr>"
    by (simp add: midnight_def)
  show ?thesis
    using parse_date_today(1,2) [where now = now] parse_date_today(3) [of t now] mid
      parse_date_two [of p0 p1 m0 d0 now] parse_date_three [of q0 q1 q2 y1 m1 d1 now]
      datetime_new_valid [of y m d] datetime_new_invalid [of y' m' d']
      parse_date_other_count [of u now] parse_date_month13 [of now]
    by blast
qed

lemma parse_date_witness_facts:
  "py_int ''2'' = Inr 2" "py_int ''29'' = Inr 29" "py_int ''2023'' = Inr 2023"
  "py_int ''12'' = Inr 12" "py_int ''31'' = Inr 31"
  "lower ''NuLl'' = ''null''" "lower ''7'' \<noteq> ''null''"
  "split_on CHR ''/'' ''7'' = [''7'']"
  "valid_date 2024 2 29" "valid_date 2023 12 31" "\<not> valid_date 2023 2 29"
  by code_simp+

theorem parse_date_spec_witness:
  "lower ''NuLl'' = ''null''
   \<and> parse_date (Some ''NuLl'')
        \<lparr>year = 2024, month = 3, day = 5, hour = 13, minute = 2, second = 3, microsecond = 4\<rparr>
      = Inr \<lparr>year = 2024, month = 3, day = 5, hour = 0, minute = 0, second = 0,
             microsecond = 0\<rparr>
   \<and> py_int ''2'' = Inr 2 \<and> py_int ''29'' = Inr 29 \<and> valid_date 2024 2 29
   \<and> parse_date (Some (''2'' @ ''/'' @ ''29''))
        \<lparr>year = 2024, month = 3, day = 5, hour = 13, minute = 2, second = 3, microsecond = 4\<rparr>
      = Inr \<lparr>year = 2024, month = 2, day = 29, hour = 0, minute = 0, second = 0,
             microsecond = 0\<rparr>
   \<and> py_int ''2023'' = Inr 2023 \<and> py_int ''12'' = Inr 12 \<and> py_int ''31'' = Inr 31
   \<and> valid_date 2023 12 31
   \<and> parse_date (Some (''2023'' @ ''/'' @ ''12'' @ ''/'' @ ''31''))
        \<lparr>year = 2024, month = 3, day = 5, hour = 13, minute = 2, second = 3, microsecond = 4\<rparr>
      = Inr \<lparr>year = 2023, month = 12, day = 31, hour = 0, minute = 0, second = 0,
             microsecond = 0\<rparr>
   \<and> \<not> valid_date 2023 2 29
   \<and> datetime_new 2023 2 29 = Inl (DayOutOfRange 29) \<and> is_date_error (DayOutOfRange 29)
   \<and> ''7'' \<noteq> [] \<and> lower ''7'' \<noteq> ''null'' \<and> length (split_on CHR ''/'' ''7'') \<noteq> 2
   \<and> length (split_on CHR ''/'' ''7'') \<noteq> 3
   \<and> parse_date (Some ''7'')
        \<lparr>year = 2024, month = 3, day = 5, hour = 13, minute = 2, second = 3, microsecond = 4\<rparr>
      = Inl InvalidDateFormat"
proof -
  let ?now = "\<lparr>year = 2024, month = 3, day = 5, hour = 13, minute = 2, second = 3,
    microsecond = 4\<rparr>"
  have bad: "datetime_new 2023 2 29 = Inl (DayOutOfRange 29)" by code_simp
  show ?thesis
    using parse_date_spec [where now = ?now and t = "''NuLl''"
        and ?p0.0 = "''2''" and ?p1.0 = "''29''" and ?m0.0 = 2 and ?d0.0 = 29
        and ?q0.0 = "''2023''" and ?q1.0 = "''12''" and ?q2.0 = "''31''"
        and ?y1.0 = 2023 and ?m1.0 = 12 and ?d1.0 = 31
        and y = 2024 and m = 2 and d = 29 and y' = 2023 and m' = 2 and d' = 29
        and u = "''7''"]
      parse_date_spec [where now = ?now and y = 2023 and m = 12 and d = 31]
    by (simp add: parse_date_witness_facts bad)
qed

section \<open>on_press: the claims\<close>

lemma on_press_yes:
  assumes "awaiting_confirm s = Some pending" "key_char k = Some CHR ''y''"
  shows "on_press k now s =
    (case pending of
       Restart \<Rightarrow> s\<lparr>restart_requested := True, awaiting_confirm := None\<rparr>
     | Quit \<Rightarrow> s\<lparr>quit_requested := True, awaiting_confirm := None\<rparr>)"
  using assms by (simp add: on_press_def)

lemma on_press_no:
  assumes "awaiting_confirm s = Some pending" "key_char k = Some CHR ''n''"
  shows "on_press k now s = s\<lparr>awaiting_confirm := None\<rparr>"
  using assms by (simp add: on_press_def)

lemma on_press_other:
  assumes "awaiting_confirm s = Some pending"
    "key_char k \<noteq> Some CHR ''y''" "key_char k \<noteq> Some CHR ''n''"
  shows "on_press k now s = s"
  using assms by (simp add: on_press_def)

lemma on_press_restart_key:
  assumes "awaiting_confirm s = None" "key_char k = Some CHR ''r''"
  shows "on_press k now s = s\<lparr>awaiting_confirm := Some Restart\<rparr>"
  using assms by (simp add: on_press_def)

lemma on_press_quit_key:
  assumes "awaiting_confirm s = None" "key_char k = Some CHR ''q''"
  shows "on_press k now s = s\<lparr>awaiting_confirm := Some Quit\<rparr>"
  using assms by (simp add: on_press_def)

text \<open>
  C6. While a confirmation is pending, \<open>y\<close> sets the flag of the pending action and clears
  \<open>awaiting_confirm\<close>; \<open>n\<close> clears \<open>awaiting_confirm\<close> and changes nothing else; any
  other key, a key without a character included, leaves the whole state as it is. So
  after \<open>r\<close>, a key other than \<open>y\<close> and \<open>n\<close> leaves the restart pending and not requested.
  Keys are compared after \<open>lower()\<close>.
\<close>

theorem on_press_confirm:
  "(awaiting_confirm s = Some Restart \<and> key_char k = Some CHR ''y'' \<longrightarrow>
      on_press k now s = s\<lparr>restart_requested := True, awaiting_confirm := None\<rparr>)
   \<and> (awaiting_confirm s = Some Quit \<and> key_char k = Some CHR ''y'' \<longrightarrow>
      on_press k now s = s\<lparr>quit_requested := True, awaiting_confirm := None\<rparr>)
   \<and> (awaiting_confirm s = Some pending \<and> key_char k = Some CHR ''n'' \<longrightarrow>
      on_press k now s = s\<lparr>awaiting_confirm := None\<rparr>)
   \<and> (awaiting_confirm s = Some pending
        \<and> key_char k \<noteq> Some CHR ''y'' \<and> key_char k \<noteq> Some CHR ''n'' \<longrightarrow>
      on_press k now s = s)
   \<and> (awaiting_confirm s0 = None \<and> key_char kr = Some CHR ''r''
        \<and> key_char k \<noteq> Some CHR ''y'' \<and> key_char k \<noteq> Some CHR ''n'' \<longrightarrow>
      on_press k now (on_press kr now0 s0) = s0\<lparr>awaiting_confirm := Some Restart\<rparr>
      \<and> awaiting_confirm (on_press k now (on_press kr now0 s0)) = Some Restart
      \<and> restart_requested (on_press k now (on_press kr now0 s0)) = restart_requested s0)"
proof (intro conjI impI)
  assume "awaiting_confirm s = Some Restart \<and> key_char k = Some CHR ''y''"
  then show "on_press k now s = s\<lparr>restart_requested := True, awaiting_confirm := None\<rparr>"
    using on_press_yes [of s Restart k now] by simp
next
  assume "awaiting_confirm s = Some Quit \<and> key_char k = Some CHR ''y''"
  then show "on_press k now s = s\<lparr>quit_requested := True, awaiting_confirm := None\<rparr>"
    using on_press_yes [of s Quit k now] by simp
next
  assume "awaiting_confirm s = Some pending \<and> key_char k = Some CHR ''n''"
  then show "on_press k now s = s\<lparr>awaiting_confirm := None\<rparr>"
    using on_press_no by blast
next
  assume "awaiting_confirm s = Some pending
      \<and> key_char k \<noteq> Some CHR ''y'' \<and> key_char k \<noteq> Some CHR ''n''"
  then show "on_press k now s = s"
    using on_press_other by blast
next
  assume a: "awaiting_confirm s0 = None \<and> key_char kr = Some CHR ''r''
      \<and> key_char k \<noteq> Some CHR ''y'' \<and> key_char k \<noteq> Some CHR ''n''"
  then have r: "on_press kr now0 s0 = s0\<lparr>awaiting_confirm := Some Restart\<rparr>"
    using on_press_restart_key by blast
  have "awaiting_confirm (s0\<lparr>awaiting_confirm := Some Restart\<rparr>) = Some Restart" by simp
  with a have o: "on_press k now (s0\<lparr>awaiting_confirm := Some Restart\<rparr>)
      = s0\<lparr>awaiting_confirm := Some Restart\<rparr>"
    using on_press_other by blast
  show "on_press k now (on_press kr now0 s0) = s0\<lparr>awaiting_confirm := Some Restart\<rparr>"
    by (simp only: r o)
  show "awaiting_confirm (on_press k now (on_press kr now0 s0)) = Some Restart"
    by (simp add: r o)
  show "restart_requested (on_press k now (on_press kr now0 s0)) = restart_requested s0"
    by (simp add: r o)
qed

lemma lower_char_examples:
  "lower_char CHR ''y'' = CHR ''y''" "lower_char CHR ''Y'' = CHR ''y''"
  "lower_char CHR ''n'' = CHR ''n''" "lower_char CHR ''N'' = CHR ''n''"
  "lower_char CHR ''r'' = CHR ''r''" "lower_char CHR ''R'' = CHR ''r''"
  "lower_char CHR ''p'' = CHR ''p''" "lower_char CHR ''P'' = CHR ''p''"
  "lower_char CHR ''q'' = CHR ''q''" "lower_char CHR ''Q'' = CHR ''q''"
  "lower_char CHR ''x'' = CHR ''x''"
  by code_simp+

theorem on_press_confirm_witness:
  "awaiting_confirm (TimerState_init\<lparr>awaiting_confirm := Some Restart\<rparr>) = Some Restart
   \<and> key_char (KeyCode (Some CHR ''Y'')) = Some CHR ''y''
   \<and> on_press (KeyCode (Some CHR ''Y'')) (clock 1)
        (TimerState_init\<lparr>awaiting_confirm := Some Restart\<rparr>)
      = TimerState_init\<lparr>restart_requested := True\<rparr>
   \<and> on_press (KeyCode (Some CHR ''y'')) (clock 1)
        (TimerState_init\<lparr>awaiting_confirm := Some Quit\<rparr>)
      = TimerState_init\<lparr>quit_requested := True\<rparr>
   \<and> key_char (KeyCode (Some CHR ''N'')) = Some CHR ''n''
   \<and> on_press (KeyCode (Some CHR ''N'')) (clock 1)
        (TimerState_init\<lparr>awaiting_confirm := Some Quit\<rparr>)
      = TimerState_init
   \<and> key_char SpecialKey \<noteq> Some CHR ''y'' \<and> key_char SpecialKey \<noteq> Some CHR ''n''
   \<and> on_press SpecialKey (clock 1) (TimerState_init\<lparr>awaiting_confirm := Some Quit\<rparr>)
      = TimerState_init\<lparr>awaiting_confirm := Some Quit\<rparr>
   \<and> awaiting_confirm TimerState_init = None
   \<and> key_char (KeyCode (Some CHR ''R'')) = Some CHR ''r''
   \<and> key_char (KeyCode (Some CHR ''p'')) \<noteq> Some CHR ''y''
   \<and> key_char (KeyCode (Some CHR ''p'')) \<noteq> Some CHR ''n''
   \<and> on_press (KeyCode (Some CHR ''p'')) (clock 2)
        (on_press (KeyCode (Some CHR ''R'')) (clock 1) TimerState_init)
      = TimerState_init\<lparr>awaiting_confirm := Some Restart\<rparr>"
  using
    on_press_confirm [where s = "TimerState_init\<lparr>awaiting_confirm := Some Restart\<rparr>"
      and k = "KeyCode (Some CHR ''Y'')" and now = "clock 1" and pending = Restart
      and ?s0.0 = TimerState_init and kr = "KeyCode (Some CHR ''R'')" and ?now0.0 = "clock 1"]
    on_press_confirm [where s = "TimerState_init\<lparr>awaiting_confirm := Some Quit\<rparr>"
      and k = "KeyCode (Some CHR ''y'')" and now = "clock 1" and pending = Quit
      and ?s0.0 = TimerState_init and kr = "KeyCode (Some CHR ''R'')" and ?now0.0 = "clock 1"]
    on_press_confirm [where s = "TimerState_init\<lparr>awaiting_confirm := Some Quit\<rparr>"
      and k = "KeyCode (Some CHR ''N'')" and now = "clock 1" and pending = Quit
      and ?s0.0 = TimerState_init and kr = "KeyCode (Some CHR ''R'')" and ?now0.0 = "clock 1"]
    on_press_confirm [where s = "TimerState_init\<lparr>awaiting_confirm := Some Quit\<rparr>"
      and k = SpecialKey and now = "clock 1" and pending = Quit
      and ?s0.0 = TimerState_init and kr = "KeyCode (Some CHR ''R'')" and ?now0.0 = "clock 1"]
    on_press_confirm [where ?s0.0 = TimerState_init and kr = "KeyCode (Some CHR ''R'')"
      and k = "KeyCode (Some CHR ''p'')" and now = "clock 2" and ?now0.0 = "clock 1"
      and s = TimerState_init and pending = Restart]
  by (simp add: lower_char_examples TimerState_init_def)

section \<open>The pause invariant: the claim\<close>

lemma pause_inv_init: "pause_inv TimerState_init"
  by (simp add: pause_inv_def TimerState_init_def)

lemma pause_inv_on_press: "pause_inv s \<Longrightarrow> pause_inv (on_press k now s)"
  by (auto simp: pause_inv_def on_press_def Let_def split: option.splits confirm.splits)

lemma pause_inv_cycle_reset: "pause_inv (cycle_reset s)"
  by (simp add: pause_inv_def cycle_reset_def)

lemma loop_body_pause_fields:
  assumes "loop_body a display now s out = (s', out', fl)"
  shows "pause_start s' = pause_start s \<and> paused s' = paused s
    \<and> total_paused s' = total_paused s"
  using assms
  by (auto simp: loop_body_def Let_def split: if_splits anchors.splits)

lemma pause_inv_main_step:
  assumes "pause_inv (st w)"
  shows "pause_inv (st (main_step mode time_str date_str display now w))"
proof (cases "pc w")
  case AtCycleStart
  then show ?thesis
    using assms by (simp add: main_step_def pause_inv_cycle_reset split: sum.splits)
next
  case (InLoop a)
  obtain s' out' fl where lb: "loop_body a display now (st w) (sink w) = (s', out', fl)"
    by (cases "loop_body a display now (st w) (sink w)") auto
  from loop_body_pause_fields [OF lb] assms have "pause_inv s'"
    by (simp add: pause_inv_def)
  with InLoop lb assms show ?thesis by (simp add: main_step_def)
next
  case AfterLoop
  then show ?thesis using assms by (simp add: main_step_def pause_inv_def)
next
  case Returned
  then show ?thesis using assms by (simp add: main_step_def)
next
  case (Raised e)
  then show ?thesis using assms by (simp add: main_step_def)
qed

lemma pause_inv_step:
  assumes "pause_inv (st w)"
  shows "pause_inv (st (step mode time_str date_str display ev w))"
  using assms
  by (cases ev) (simp_all add: step_def pause_inv_on_press pause_inv_main_step)

lemma pause_inv_run_from:
  "pause_inv (st w) \<Longrightarrow> pause_inv (st (run_from mode time_str date_str display evs w))"
  by (induction evs arbitrary: w) (simp_all add: pause_inv_step)

lemma on_press_pause_entry:
  assumes "awaiting_confirm s = None" "key_char k = Some CHR ''p''" "\<not> paused s"
  shows "on_press k now s = s\<lparr>pause_start := Some now, paused := True\<rparr>"
  using assms by (simp add: on_press_def)

lemma on_press_pause_exit:
  assumes "awaiting_confirm s = None" "key_char k = Some CHR ''p''" "paused s"
    "pause_start s = Some t0"
  shows "on_press k now s =
    s\<lparr>total_paused := total_paused s + (to_us now - to_us t0), pause_start := None,
      paused := False\<rparr>"
  using assms by (simp add: on_press_def)

text \<open>
  C9. \<open>pause_start\<close> is set exactly while \<open>paused\<close> is true: in the initial state, after
  every key event if before it, after the reset at the head of a cycle whatever came
  before, and so in every state that a run reaches, whatever the schedule. The pause key
  records the clock reading on entry; on exit it adds the time since then to
  \<open>total_paused\<close> and clears \<open>pause_start\<close>. A key event and the reset are each taken as
  one step.
\<close>

theorem pause_invariant:
  "pause_inv TimerState_init
   \<and> (pause_inv s \<longrightarrow> pause_inv (on_press k now s))
   \<and> pause_inv (cycle_reset s')
   \<and> pause_inv (st (run_timer mode time_str date_str display evs))
   \<and> (awaiting_confirm s = None \<and> key_char k = Some CHR ''p'' \<and> \<not> paused s \<longrightarrow>
        on_press k now s = s\<lparr>pause_start := Some now, paused := True\<rparr>)
   \<and> (awaiting_confirm s = None \<and> key_char k = Some CHR ''p'' \<and> paused s
        \<and> pause_start s = Some t0 \<longrightarrow>
        on_press k now s =
          s\<lparr>total_paused := total_paused s + (to_us now - to_us t0), pause_start := None,
            paused := False\<rparr>)"
proof -
  have run: "pause_inv (st (run_timer mode time_str date_str display evs))"
    unfolding run_timer_def
    by (rule pause_inv_run_from) (simp add: world_init_def pause_inv_init)
  show ?thesis
    using pause_inv_init pause_inv_on_press [of s k now] pause_inv_cycle_reset [of s'] run
      on_press_pause_entry [of s k now] on_press_pause_exit [of s k t0 now]
    by blast
qed

lemma to_us_clock: "to_us (clock n) = 63845323200000000 + n * 1000000"
proof -
  have "ymd2ord 2024 3 5 = 738950" by code_simp
  then show ?thesis by (simp add: to_us_def clock_def)
qed

theorem pause_invariant_witness:
  "pause_inv TimerState_init \<and> awaiting_confirm TimerState_init = None
   \<and> key_char (KeyCode (Some CHR ''P'')) = Some CHR ''p'' \<and> \<not> paused TimerState_init
   \<and> on_press (KeyCode (Some CHR ''P'')) (clock 1) TimerState_init
      = TimerState_init\<lparr>pause_start := Some (clock 1), paused := True\<rparr>
   \<and> pause_inv (on_press (KeyCode (Some CHR ''P'')) (clock 1) TimerState_init)
   \<and> paused (TimerState_init\<lparr>pause_start := Some (clock 1), paused := True\<rparr>)
   \<and> on_press (KeyCode (Some CHR ''p'')) (clock 4)
        (TimerState_init\<lparr>pause_start := Some (clock 1), paused := True\<rparr>)
      = TimerState_init\<lparr>total_paused := 3000000\<rparr>"
  using
    pause_invariant [where s = TimerState_init and k = "KeyCode (Some CHR ''P'')"
      and now = "clock 1" and ?t0.0 = "clock 1"]
    pause_invariant [where s = "TimerState_init\<lparr>pause_start := Some (clock 1), paused := True\<rparr>"
      and k = "KeyCode (Some CHR ''p'')" and now = "clock 4" and ?t0.0 = "clock 1"]
  by (simp add: lower_char_examples TimerState_init_def to_us_clock pause_inv_def)

section \<open>The head of a cycle: the claim\<close>

lemma step_cycle_start:
  assumes "pc w = AtCycleStart" "running (st w)"
  shows "st (step mode time_str date_str display (MainStep now) w) = cycle_reset (st w)"
    and "pc (step mode time_str date_str display (MainStep now) w) =
      (case cycle_anchors mode time_str date_str now of Inl e \<Rightarrow> Raised e | Inr a \<Rightarrow> InLoop a)"
    and "sink (step mode time_str date_str display (MainStep now) w) = sink w"
  using assms by (simp_all add: step_def main_step_def split: sum.splits)

text \<open>
  C3, as amended. The claim says that the head of every cycle clears both
  \<open>restart_requested\<close> and \<open>quit_requested\<close>. The main thread's step at the head of a
  cycle leaves the state as \<open>cycle_reset\<close> of the state before, whether the anchors are
  then computed or their parsing raises: \<open>restart_requested\<close> is false, \<open>total_paused\<close>
  is 0, \<open>pause_start\<close> is \<open>None\<close> and \<open>paused\<close> is false. \<open>quit_requested\<close>, like
  \<open>running\<close> and \<open>awaiting_confirm\<close>, is not written: it keeps its value.
\<close>

theorem cycle_start_reset:
  "(pc w = AtCycleStart \<and> running (st w) \<longrightarrow>
      st (step mode time_str date_str display (MainStep now) w) = cycle_reset (st w)
      \<and> pc (step mode time_str date_str display (MainStep now) w) =
          (case cycle_anchors mode time_str date_str now of
             Inl e \<Rightarrow> Raised e | Inr a \<Rightarrow> InLoop a)
      \<and> sink (step mode time_str date_str display (MainStep now) w) = sink w)
   \<and> restart_requested (cycle_reset s) = False
   \<and> total_paused (cycle_reset s) = 0
   \<and> pause_start (cycle_reset s) = None
   \<and> paused (cycle_reset s) = False
   \<and> quit_requested (cycle_reset s) = quit_requested s
   \<and> running (cycle_reset s) = running s
   \<and> awaiting_confirm (cycle_reset s) = awaiting_confirm s"
  using step_cycle_start [of w mode time_str date_str display now]
  by (simp add: cycle_reset_def)

lemma late_quit_run:
  "run_timer 2 ''0'' None 0 late_quit_schedule =
     \<lparr>st = \<lparr>running = True, paused = False, restart_requested = True,
             quit_requested = True, awaiting_confirm = None, pause_start = None,
             total_paused = 0\<rparr>,
       pc = AtCycleStart, sink = []\<rparr>"
  by code_simp

theorem cycle_start_reset_witness:
  "pc (run_timer 2 ''0'' None 0 late_quit_schedule) = AtCycleStart
   \<and> running (st (run_timer 2 ''0'' None 0 late_quit_schedule))
   \<and> st (step 2 ''0'' None 0 (MainStep (clock 7)) (run_timer 2 ''0'' None 0 late_quit_schedule))
      = \<lparr>running = True, paused = False, restart_requested = False,
          quit_requested = True, awaiting_confirm = None, pause_start = None,
          total_paused = 0\<rparr>
   \<and> pc (step 2 ''0'' None 0 (MainStep (clock 7)) (run_timer 2 ''0'' None 0 late_quit_schedule))
      = InLoop (CountUp (clock 7))"
  using cycle_start_reset [where w = "run_timer 2 ''0'' None 0 late_quit_schedule"
      and mode = 2 and time_str = "''0''" and date_str = None and display = 0
      and now = "clock 7"]
  by (simp add: late_quit_run cycle_reset_def cycle_anchors_def)

text \<open>
  C3, the counterexample: \<open>r\<close>, \<open>y\<close>, \<open>q\<close> are pressed, the inner loop ends on the
  restart, line 219 finds no quit requested, and then \<open>y\<close> confirms the quit. The next
  cycle starts (\<open>running\<close> is still true), and after its reset \<open>quit_requested\<close> is
  still true.
\<close>

theorem cycle_start_keeps_quit_counterexample:
  "pc (run_timer 2 ''0'' None 0 late_quit_schedule) = AtCycleStart
   \<and> running (st (run_timer 2 ''0'' None 0 late_quit_schedule))
   \<and> pc (run_timer 2 ''0'' None 0 (late_quit_schedule @ [MainStep (clock 7)]))
      = InLoop (CountUp (clock 7))
   \<and> restart_requested
        (st (run_timer 2 ''0'' None 0 (late_quit_schedule @ [MainStep (clock 7)]))) = False
   \<and> quit_requested
        (st (run_timer 2 ''0'' None 0 (late_quit_schedule @ [MainStep (clock 7)]))) = True"
  by code_simp

section \<open>Mode 0 and the pause key: the claim\<close>

lemma trunc_seconds_pos: "0 < us \<Longrightarrow> max 0 (trunc_seconds us) = us div 1000000"
  by (simp add: trunc_seconds_def)

lemma loop_body_ToTarget:
  "loop_body (ToTarget target_time) display now s out =
     (if target_time - to_us now \<le> 0
      then (s\<lparr>running := False\<rparr>, out @ [format_time 0 display], Break)
      else (s, out @ [format_time ((target_time - to_us now) div 1000000) display], Continue))"
  by (simp add: loop_body_def Let_def trunc_seconds_pos)

lemma cycle_anchors_mode0: "cycle_anchors 0 time_str date_str now = Inr a \<Longrightarrow> is_ToTarget a"
  by (auto simp: cycle_anchors_def split: sum.splits)

lemma on_press_control:
  assumes "awaiting_confirm s = awaiting_confirm s'"
    "restart_requested s = restart_requested s'"
    "quit_requested s = quit_requested s'" "running s = running s'"
  shows "awaiting_confirm (on_press k now s) = awaiting_confirm (on_press k now s')
    \<and> restart_requested (on_press k now s) = restart_requested (on_press k now s')
    \<and> quit_requested (on_press k now s) = quit_requested (on_press k now s')
    \<and> running (on_press k now s) = running (on_press k now s')"
  using assms
  by (auto simp: on_press_def Let_def split: option.splits confirm.splits)

lemma on_press_pause_control:
  assumes "key_char k = Some CHR ''p''"
  shows "awaiting_confirm (on_press k now s) = awaiting_confirm s
    \<and> restart_requested (on_press k now s) = restart_requested s
    \<and> quit_requested (on_press k now s) = quit_requested s
    \<and> running (on_press k now s) = running s"
  using assms
  by (auto simp: on_press_def Let_def split: option.splits confirm.splits)

lemma same_control_sym: "same_control w w' \<Longrightarrow> same_control w' w"
  by (simp add: same_control_def)

lemma same_control_trans: "same_control w w' \<Longrightarrow> same_control w' w'' \<Longrightarrow> same_control w w''"
  by (simp add: same_control_def)

lemma step_pause_press:
  assumes "is_pause_press ev"
  shows "same_control (step mode time_str date_str display ev w) w"
proof (cases ev)
  case (KeyPress k now)
  with assms have p: "key_char k = Some CHR ''p''" by simp
  show ?thesis
    using on_press_pause_control [OF p, of now "st w"] KeyPress
    by (simp add: step_def same_control_def)
next
  case (MainStep now)
  with assms show ?thesis by simp
next
  case (Fault e)
  with assms show ?thesis by simp
qed

lemma main_step_same_control:
  assumes sc: "same_control w w'" and tt: "to_target_pc (pc w)"
  shows "same_control (main_step 0 time_str date_str display now w)
      (main_step 0 time_str date_str display now w')
    \<and> to_target_pc (pc (main_step 0 time_str date_str display now w))"
proof (cases "pc w")
  case AtCycleStart
  with sc have p': "pc w' = AtCycleStart" by (simp add: same_control_def)
  show ?thesis
  proof (cases "cycle_anchors 0 time_str date_str now")
    case (Inl e)
    with AtCycleStart p' sc show ?thesis
      by (simp add: main_step_def same_control_def cycle_reset_def)
  next
    case (Inr a)
    with AtCycleStart p' sc cycle_anchors_mode0 [OF Inr] show ?thesis
      by (simp add: main_step_def same_control_def cycle_reset_def)
  qed
next
  case (InLoop a)
  with tt obtain target_time where a: "a = ToTarget target_time" by (cases a) auto
  from InLoop sc have p': "pc w' = InLoop a" by (simp add: same_control_def)
  from InLoop p' sc a show ?thesis
    by (simp add: main_step_def same_control_def loop_body_ToTarget)
next
  case AfterLoop
  with sc have p': "pc w' = AfterLoop" by (simp add: same_control_def)
  from AfterLoop p' sc show ?thesis by (simp add: main_step_def same_control_def)
next
  case Returned
  with sc have p': "pc w' = Returned" by (simp add: same_control_def)
  from Returned p' sc show ?thesis by (simp add: main_step_def)
next
  case (Raised e)
  with sc have p': "pc w' = Raised e" by (simp add: same_control_def)
  from Raised p' sc show ?thesis by (simp add: main_step_def)
qed

lemma step_same_control:
  assumes sc: "same_control w w'" and tt: "to_target_pc (pc w)"
  shows "same_control (step 0 time_str date_str display ev w)
      (step 0 time_str date_str display ev w')
    \<and> to_target_pc (pc (step 0 time_str date_str display ev w))"
proof (cases "terminated (pc w)")
  case True
  with sc tt show ?thesis by (simp add: step_def same_control_def)
next
  case False
  with sc have nt: "\<not> terminated (pc w')" by (simp add: same_control_def)
  show ?thesis
  proof (cases ev)
    case (KeyPress k now)
    from sc have "awaiting_confirm (st w) = awaiting_confirm (st w')"
      "restart_requested (st w) = restart_requested (st w')"
      "quit_requested (st w) = quit_requested (st w')" "running (st w) = running (st w')"
      by (simp_all add: same_control_def)
    from on_press_control [OF this, of k now] KeyPress False nt sc tt show ?thesis
      by (simp add: step_def same_control_def)
  next
    case (MainStep now)
    with False nt main_step_same_control [OF sc tt, of time_str date_str display now]
    show ?thesis by (simp add: step_def)
  next
    case (Fault e)
    with False nt sc show ?thesis by (simp add: step_def same_control_def)
  qed
qed

lemma step_pause_to_target:
  "is_pause_press ev \<Longrightarrow> pc (step mode time_str date_str display ev w) = pc w"
  by (cases ev) (simp_all add: step_def)

lemma run_from_without_pause:
  assumes "same_control w w'" "to_target_pc (pc w)"
  shows "same_control (run_from 0 time_str date_str display evs w)
    (run_from 0 time_str date_str display (without_pause evs) w')"
  using assms
proof (induction evs arbitrary: w w')
  case Nil
  then show ?case by (simp add: without_pause_def)
next
  case (Cons ev evs)
  show ?case
  proof (cases "is_pause_press ev")
    case True
    have 1: "same_control (step 0 time_str date_str display ev w) w'"
      using step_pause_press [OF True] Cons.prems(1) by (rule same_control_trans)
    have 2: "to_target_pc (pc (step 0 time_str date_str display ev w))"
      using Cons.prems(2) by (simp add: step_pause_to_target [OF True])
    from Cons.IH [OF 1 2] True show ?thesis by (simp add: without_pause_def)
  next
    case False
    from step_same_control [OF Cons.prems, of time_str date_str display ev]
    have "same_control (run_from 0 time_str date_str display evs
          (step 0 time_str date_str display ev w))
        (run_from 0 time_str date_str display (without_pause evs)
          (step 0 time_str date_str display ev w'))"
      using Cons.IH by blast
    with False show ?thesis by (simp add: without_pause_def)
  qed
qed

lemma run_timer_without_pause:
  "same_control (run_timer 0 time_str date_str display evs)
     (run_timer 0 time_str date_str display (without_pause evs))"
  unfolding run_timer_def
  by (rule run_from_without_pause) (simp_all add: same_control_def world_init_def)

text \<open>
  C5. In mode 0 a pass of the inner loop is never skipped and computes the remaining time
  as the target minus the clock reading, whatever the pause fields hold: at or after the
  target it writes the zero display and ends the session, before it writes the whole
  seconds left. Two schedules that are the same once the presses of the pause key are
  taken out give the same writes to the sink, in the same order, and leave the main
  thread at the same place with the same control flags.
\<close>

theorem mode0_ignores_pause:
  "loop_body (ToTarget target_time) display now s out =
     (if target_time - to_us now \<le> 0
      then (s\<lparr>running := False\<rparr>, out @ [format_time 0 display], Break)
      else (s, out @ [format_time ((target_time - to_us now) div 1000000) display], Continue))
   \<and> (without_pause evs = without_pause evs' \<longrightarrow>
        sink (run_timer 0 time_str date_str display evs)
          = sink (run_timer 0 time_str date_str display evs')
        \<and> same_control (run_timer 0 time_str date_str display evs)
            (run_timer 0 time_str date_str display evs'))"
proof (intro conjI impI)
  show "loop_body (ToTarget target_time) display now s out =
     (if target_time - to_us now \<le> 0
      then (s\<lparr>running := False\<rparr>, out @ [format_time 0 display], Break)
      else (s, out @ [format_time ((target_time - to_us now) div 1000000) display], Continue))"
    by (rule loop_body_ToTarget)
next
  assume eq: "without_pause evs = without_pause evs'"
  have a: "same_control (run_timer 0 time_str date_str display evs)
      (run_timer 0 time_str date_str display (without_pause evs))"
    by (rule run_timer_without_pause)
  have b: "same_control (run_timer 0 time_str date_str display evs')
      (run_timer 0 time_str date_str display (without_pause evs))"
    unfolding eq by (rule run_timer_without_pause)
  show c: "same_control (run_timer 0 time_str date_str display evs)
      (run_timer 0 time_str date_str display evs')"
    using a same_control_sym [OF b] by (rule same_control_trans)
  then show "sink (run_timer 0 time_str date_str display evs)
      = sink (run_timer 0 time_str date_str display evs')"
    by (simp add: same_control_def)
qed

lemma mode0_sample_runs:
  "without_pause [MainStep (clock 0), press CHR ''p'' 1, MainStep (clock 2), MainStep (clock 3)]
     = [MainStep (clock 0), MainStep (clock 2), MainStep (clock 3)]"
  "without_pause [MainStep (clock 0), MainStep (clock 2), press CHR ''P'' 2,
      press CHR ''p'' 3, MainStep (clock 3)]
     = [MainStep (clock 0), MainStep (clock 2), MainStep (clock 3)]"
  "sink (run_timer 0 ''12:00:05'' None 0
      [MainStep (clock 0), press CHR ''p'' 1, MainStep (clock 2), MainStep (clock 3)])
     = [''3'', ''2'']"
  by code_simp+

theorem mode0_ignores_pause_witness:
  "without_pause [MainStep (clock 0), press CHR ''p'' 1, MainStep (clock 2), MainStep (clock 3)]
     = without_pause [MainStep (clock 0), MainStep (clock 2), press CHR ''P'' 2,
         press CHR ''p'' 3, MainStep (clock 3)]
   \<and> sink (run_timer 0 ''12:00:05'' None 0
        [MainStep (clock 0), press CHR ''p'' 1, MainStep (clock 2), MainStep (clock 3)])
      = [''3'', ''2'']
   \<and> sink (run_timer 0 ''12:00:05'' None 0
        [MainStep (clock 0), MainStep (clock 2), press CHR ''P'' 2, press CHR ''p'' 3,
         MainStep (clock 3)])
      = [''3'', ''2'']"
  using mode0_ignores_pause [where time_str = "''12:00:05''" and date_str = None
      and display = 0
      and evs = "[MainStep (clock 0), press CHR ''p'' 1, MainStep (clock 2), MainStep (clock 3)]"
      and evs' = "[MainStep (clock 0), MainStep (clock 2), press CHR ''P'' 2,
         press CHR ''p'' 3, MainStep (clock 3)]"]
  by (simp add: mode0_sample_runs)

section \<open>main and the exceptions of the run: the claim\<close>

text \<open>
  What the two handlers of main do with an exception of the run. One that
  \<open>except Exception\<close> catches is reported and the process ends with status 1; this handler
  writes nothing to the sink, which keeps what the run wrote last. The handler for the
  keyboard interrupt writes the empty string and the process ends with status 0.
\<close>

lemma main_run_handlers:
  "(pc (run_timer mode time_str date_str display evs) = Raised e \<and> is_Exception e \<longrightarrow>
      main_run mode time_str date_str display evs =
        Some \<lparr>exit_code = 1, report = [PrintError e],
              writes = sink (run_timer mode time_str date_str display evs)\<rparr>)
   \<and> (pc (run_timer mode time_str date_str display evs) = Raised KeyboardInterrupt \<longrightarrow>
      main_run mode time_str date_str display evs =
        Some \<lparr>exit_code = 0, report = [Print ''\<newline>Interrupted by user''],
              writes = sink (run_timer mode time_str date_str display evs) @ ['''']\<rparr>)"
proof (intro conjI impI)
  assume a: "pc (run_timer mode time_str date_str display evs) = Raised e \<and> is_Exception e"
  then have "e \<noteq> KeyboardInterrupt" by auto
  with a show "main_run mode time_str date_str display evs =
      Some \<lparr>exit_code = 1, report = [PrintError e],
            writes = sink (run_timer mode time_str date_str display evs)\<rparr>"
    by (simp add: main_run_def Let_def)
next
  assume "pc (run_timer mode time_str date_str display evs) = Raised KeyboardInterrupt"
  then show "main_run mode time_str date_str display evs =
      Some \<lparr>exit_code = 0, report = [Print ''\<newline>Interrupted by user''],
            writes = sink (run_timer mode time_str date_str display evs) @ ['''']\<rparr>"
    by (simp add: main_run_def Let_def)
qed

lemma main_sample_runs:
  "run_timer 1 ''1:60'' None 0 [MainStep (clock 0)]
     = \<lparr>st = TimerState_init, pc = Raised SecondsTooLarge, sink = []\<rparr>"
  "run_timer 1 ''5'' None 0
      [MainStep (clock 0), MainStep (clock 0), MainStep (clock 1),
       Fault (OtherException ''OSError'')]
     = \<lparr>st = TimerState_init, pc = Raised (OtherException ''OSError''),
        sink = [''5'', ''4'']\<rparr>"
  "run_timer 1 ''5'' None 0
      [MainStep (clock 0), MainStep (clock 0), MainStep (clock 1), Fault KeyboardInterrupt]
     = \<lparr>st = TimerState_init, pc = Raised KeyboardInterrupt, sink = [''5'', ''4'']\<rparr>"
  by code_simp+

text \<open>
  C4. The claim says that on an unexpected exception of the run the top level reports it,
  ends the process with a non-zero status and first writes the empty string to the sink.
  The code reports and ends with status 1, but does not clear the sink. With
  \<open>--mode 1 --time 1:60\<close> the first cycle raises the \<open>ValueError\<close> of parse_time, and
  nothing at all is written. When the file write fails after \<open>5\<close> and \<open>4\<close> were
  shown, the last text written stays \<open>4\<close>. The handler beside it does what the claim
  asks: the same run ended by a keyboard interrupt is followed by the empty string.
\<close>

theorem main_run_exception_keeps_sink:
  "main_run 1 ''1:60'' None 0 [MainStep (clock 0)]
     = Some \<lparr>exit_code = 1, report = [PrintError SecondsTooLarge], writes = []\<rparr>
   \<and> is_Exception SecondsTooLarge
   \<and> main_run 1 ''5'' None 0
        [MainStep (clock 0), MainStep (clock 0), MainStep (clock 1),
         Fault (OtherException ''OSError'')]
      = Some \<lparr>exit_code = 1, report = [PrintError (OtherException ''OSError'')],
              writes = [''5'', ''4'']\<rparr>
   \<and> is_Exception (OtherException ''OSError'')
   \<and> main_run 1 ''5'' None 0
        [MainStep (clock 0), MainStep (clock 0), MainStep (clock 1), Fault KeyboardInterrupt]
      = Some \<lparr>exit_code = 0, report = [Print ''\<newline>Interrupted by user''],
              writes = [''5'', ''4'', '''']\<rparr>"
  by (simp add: main_run_def main_sample_runs)

end
